theory Spec2Isabelle
  imports Complex_Main
begin

section \<open>Python values and exceptions\<close>

text \<open>
  Values that reach the gateway as parsed JSON. A Python \<open>dict\<close> built by the JSON
  parser is an association list here; \<open>map_of\<close> is the lookup. A float is the rational
  number it denotes.
\<close>

datatype json =
    JNull
  | JBool bool
  | JInt int
  | JFloat rat
  | JStr string
  | JArr "json list"
  | JObj "(string \<times> json) list"

text \<open>
  The exceptions that the modelled code raises, catches or lets through.
  \<open>TimeoutException\<close> and \<open>RequestError\<close> are the two \<open>httpx\<close> classes named in
  \<open>http_client.py\<close>; \<open>OtherException\<close> stands for any further subclass of
  \<open>Exception\<close> that a collaborator raises; \<open>CancelledError\<close> derives from
  \<open>BaseException\<close> only.
\<close>

datatype py_exception =
    FirstTokenTimeoutError
  | HTTPException int
  | NameError string
  | AttributeError
  | TypeError
  | OverflowError
  | ValueError
  | TimeoutException
  | RequestError
  | OtherException
  | CancelledError

text \<open>\<open>isinstance(e, Exception)\<close>: what an \<open>except Exception\<close> clause catches.\<close>

fun is_Exception :: "py_exception \<Rightarrow> bool" where
  "is_Exception CancelledError = False"
| "is_Exception _ = True"

text \<open>Python truthiness, as used by \<open>if x\<close>, \<open>x and y\<close>, \<open>x or y\<close>.\<close>

fun truthy :: "json \<Rightarrow> bool" where
  "truthy JNull = False"
| "truthy (JBool b) = b"
| "truthy (JInt i) = (i \<noteq> 0)"
| "truthy (JFloat r) = (r \<noteq> 0)"
| "truthy (JStr s) = (s \<noteq> [])"
| "truthy (JArr xs) = (xs \<noteq> [])"
| "truthy (JObj kvs) = (kvs \<noteq> [])"

text \<open>\<open>x.get(k)\<close>: only a dict has the method; a missing key gives \<open>None\<close>.\<close>

fun py_get :: "json \<Rightarrow> string \<Rightarrow> py_exception + json" where
  "py_get (JObj kvs) k = Inr (case map_of kvs k of None \<Rightarrow> JNull | Some v \<Rightarrow> v)"
| "py_get _ k = Inl AttributeError"

section \<open>config.py\<close>

record Settings =
  max_retries :: int
  first_token_max_retries :: int
  default_max_input_tokens :: int

text \<open>The field defaults of the \<open>Settings\<close> class.\<close>

definition Settings_default :: Settings where
  "Settings_default =
     \<lparr> max_retries = 3, first_token_max_retries = 3, default_max_input_tokens = 200000 \<rparr>"

definition MODEL_MAPPING :: "(string \<times> string) list" where
  "MODEL_MAPPING =
     [ (''claude-opus-4-5'', ''claude-opus-4.5''),
       (''claude-opus-4-5-20251101'', ''claude-opus-4.5''),
       (''claude-haiku-4-5'', ''claude-haiku-4.5''),
       (''claude-haiku-4.5'', ''claude-haiku-4.5''),
       (''claude-sonnet-4-5'', ''CLAUDE_SONNET_4_5_20250929_V1_0''),
       (''claude-sonnet-4-5-20250929'', ''CLAUDE_SONNET_4_5_20250929_V1_0''),
       (''claude-sonnet-4'', ''CLAUDE_SONNET_4_20250514_V1_0''),
       (''claude-sonnet-4-20250514'', ''CLAUDE_SONNET_4_20250514_V1_0''),
       (''claude-3-7-sonnet-20250219'', ''CLAUDE_3_7_SONNET_20250219_V1_0''),
       (''auto'', ''claude-sonnet-4.5'') ]"

text \<open>\<open>MODEL_MAPPING.get(external_model, external_model)\<close>\<close>

definition get_internal_model_id :: "string \<Rightarrow> string" where
  "get_internal_model_id external_model =
     (case map_of MODEL_MAPPING external_model of
        None \<Rightarrow> external_model
      | Some internal \<Rightarrow> internal)"

section \<open>metrics.py: the active-connections gauge\<close>

record PrometheusMetrics =
  active_connections :: int
  cache_size :: int
  token_valid :: bool

text \<open>The gauges as \<open>__init__\<close> sets them.\<close>

definition metrics_init :: PrometheusMetrics where
  "metrics_init = \<lparr> active_connections = 0, cache_size = 0, token_valid = False \<rparr>"

definition inc_active_connections :: "PrometheusMetrics \<Rightarrow> PrometheusMetrics" where
  "inc_active_connections m = m\<lparr> active_connections := active_connections m + 1 \<rparr>"

definition dec_active_connections :: "PrometheusMetrics \<Rightarrow> PrometheusMetrics" where
  "dec_active_connections m = m\<lparr> active_connections := max 0 (active_connections m - 1) \<rparr>"

text \<open>
  Both methods run under the collector's lock, so concurrent callers are serialised: an
  interleaving is a sequence of calls.
\<close>

datatype gauge_call = Inc | Dec

fun gauge_step :: "PrometheusMetrics \<Rightarrow> gauge_call \<Rightarrow> PrometheusMetrics" where
  "gauge_step m Inc = inc_active_connections m"
| "gauge_step m Dec = dec_active_connections m"

definition run_gauge_calls :: "gauge_call list \<Rightarrow> PrometheusMetrics" where
  "run_gauge_calls calls = foldl gauge_step metrics_init calls"

section \<open>cache.py: ModelInfoCache.get_max_input_tokens\<close>

text \<open>
  \<open>_cache\<close> maps a model id to the model's JSON description. The method reads
  \<open>DEFAULT_MAX_INPUT_TOKENS\<close>, which \<open>config.py\<close> sets to
  \<open>settings.default_max_input_tokens\<close>.
\<close>

definition get_max_input_tokens ::
  "Settings \<Rightarrow> (string \<rightharpoonup> json) \<Rightarrow> string \<Rightarrow> py_exception + json" where
  "get_max_input_tokens s cache model_id =
     (let dflt = JInt (default_max_input_tokens s) in
      case cache model_id of
        None \<Rightarrow> Inr dflt
      | Some model \<Rightarrow>
          if \<not> truthy model then Inr dflt
          else (case py_get model ''tokenLimits'' of
                  Inl e \<Rightarrow> Inl e
                | Inr limits \<Rightarrow>
                    if \<not> truthy limits then Inr dflt
                    else (case py_get limits ''maxInputTokens'' of
                            Inl e \<Rightarrow> Inl e
                          | Inr v \<Rightarrow> Inr (if truthy v then v else dflt))))"

section \<open>http_client.py: KiroHttpClient.request_with_retry\<close>

text \<open>
  The collaborators of the retry loop are the auth manager and the \<open>httpx\<close> client.
  Each call either returns or raises; what they do at attempt \<open>i\<close> is the environment
  of the loop. \<open>asyncio.sleep\<close> and the logger are taken to return.
\<close>

datatype 'a outcome = Returns 'a | Raises py_exception

record attempt_env =
  token_outcome :: "unit outcome"
    \<comment> \<open>\<open>auth_manager.get_access_token()\<close> and \<open>_get_headers(token)\<close>\<close>
  send_outcome :: "int outcome"
    \<comment> \<open>\<open>client.send\<close> / \<open>client.request\<close>: the response's status code\<close>
  refresh_outcome :: "unit outcome"
    \<comment> \<open>\<open>auth_manager.force_refresh()\<close>, called after a 403 only\<close>

text \<open>
  What the loop did: the calls it made, and the sleeps it took. A sleep of
  \<open>settings.base_retry_delay * (2 ** attempt)\<close> seconds is recorded as its factor
  \<open>2 ** attempt\<close>.
\<close>

record http_trace =
  token_fetches :: nat
  requests_sent :: nat
  forced_refreshes :: nat
  sleeps :: "nat list"

definition trace_init :: http_trace where
  "trace_init = \<lparr> token_fetches = 0, requests_sent = 0, forced_refreshes = 0, sleeps = [] \<rparr>"

definition backoff :: "nat \<Rightarrow> http_trace \<Rightarrow> http_trace" where
  "backoff attempt t = t\<lparr> sleeps := sleeps t @ [2 ^ attempt] \<rparr>"

datatype step_result = Continue | Return int | Raise py_exception

text \<open>
  The two \<open>except\<close> clauses of the loop body, in the source's order; any other
  exception leaves the function.
\<close>

fun handle_exception :: "bool \<Rightarrow> nat \<Rightarrow> py_exception \<Rightarrow> http_trace \<Rightarrow> step_result \<times> http_trace" where
  "handle_exception stream attempt TimeoutException t =
     (Continue, if stream then t else backoff attempt t)"
| "handle_exception stream attempt RequestError t = (Continue, backoff attempt t)"
| "handle_exception stream attempt e t = (Raise e, t)"

text \<open>One pass through the body of \<open>for attempt in range(max_retries)\<close>.\<close>

definition attempt_body :: "bool \<Rightarrow> attempt_env \<Rightarrow> nat \<Rightarrow> http_trace \<Rightarrow> step_result \<times> http_trace" where
  "attempt_body stream env attempt t =
     (let t1 = t\<lparr> token_fetches := token_fetches t + 1 \<rparr> in
      case token_outcome env of
        Raises e \<Rightarrow> handle_exception stream attempt e t1
      | Returns _ \<Rightarrow>
          (let t2 = t1\<lparr> requests_sent := requests_sent t1 + 1 \<rparr> in
           case send_outcome env of
             Raises e \<Rightarrow> handle_exception stream attempt e t2
           | Returns status_code \<Rightarrow>
               if status_code = 200 then (Return status_code, t2)
               else if status_code = 403 then
                 (let t3 = t2\<lparr> forced_refreshes := forced_refreshes t2 + 1 \<rparr> in
                  case refresh_outcome env of
                    Raises e \<Rightarrow> handle_exception stream attempt e t3
                  | Returns _ \<Rightarrow> (Continue, t3))
               else if status_code = 429 then (Continue, backoff attempt t2)
               else if 500 \<le> status_code \<and> status_code < 600 then (Continue, backoff attempt t2)
               else (Return status_code, t2)))"

text \<open>
  The \<open>for\<close> loop, from \<open>attempt\<close> on with \<open>remaining\<close> passes left. \<open>None\<close>: the
  loop ran out without returning or raising.
\<close>

fun retry_loop ::
  "bool \<Rightarrow> (nat \<Rightarrow> attempt_env) \<Rightarrow> nat \<Rightarrow> nat \<Rightarrow> http_trace
     \<Rightarrow> (py_exception + int) option \<times> http_trace" where
  "retry_loop stream env attempt 0 t = (None, t)"
| "retry_loop stream env attempt (Suc remaining) t =
     (case attempt_body stream (env attempt) attempt t of
        (Continue, t') \<Rightarrow> retry_loop stream env (Suc attempt) remaining t'
      | (Return status_code, t') \<Rightarrow> (Some (Inr status_code), t')
      | (Raise e, t') \<Rightarrow> (Some (Inl e), t'))"

text \<open>
  The names bound in the module \<open>http_client.py\<close>: its imports and its top-level
  definitions. A name that is neither here nor a builtin raises \<open>NameError\<close> when it is
  evaluated.
\<close>

definition http_client_globals :: "string list" where
  "http_client_globals =
     [ ''asyncio'', ''Optional'', ''httpx'', ''logger'', ''KiroAuthManager'', ''settings'',
       ''GlobalHTTPClientManager'', ''global_http_client_manager'', ''KiroHttpClient'',
       ''close_global_http_client'' ]"

text \<open>\<open>raise HTTPException(status_code=..., detail=...)\<close>, evaluated in that module.\<close>

definition raise_HTTPException :: "int \<Rightarrow> py_exception" where
  "raise_HTTPException status_code =
     (if ''HTTPException'' \<in> set http_client_globals then HTTPException status_code
      else NameError ''HTTPException'')"

text \<open>\<open>range(n)\<close> is empty for \<open>n \<le> 0\<close>.\<close>

definition retry_budget :: "Settings \<Rightarrow> bool \<Rightarrow> nat" where
  "retry_budget s stream = nat (if stream then first_token_max_retries s else max_retries s)"

definition request_with_retry ::
  "Settings \<Rightarrow> bool \<Rightarrow> (nat \<Rightarrow> attempt_env) \<Rightarrow> (py_exception + int) \<times> http_trace" where
  "request_with_retry s stream env =
     (case retry_loop stream env 0 (retry_budget s stream) trace_init of
        (Some r, t) \<Rightarrow> (r, t)
      | (None, t) \<Rightarrow> (Inl (raise_HTTPException (if stream then 504 else 502)), t))"

text \<open>An attempt whose auth calls return and whose response has the given status.\<close>

definition responds :: "int \<Rightarrow> attempt_env" where
  "responds status_code =
     \<lparr> token_outcome = Returns (), send_outcome = Returns status_code,
       refresh_outcome = Returns () \<rparr>"

text \<open>
  An attempt that ends in a retryable response: the token is obtained, the upstream answers
  403 (and the forced refresh returns), 429 or 5xx.
\<close>

definition gets_retryable_response :: "attempt_env \<Rightarrow> bool" where
  "gets_retryable_response env =
     (case token_outcome env of
        Raises _ \<Rightarrow> False
      | Returns _ \<Rightarrow>
          (case send_outcome env of
             Raises _ \<Rightarrow> False
           | Returns c \<Rightarrow>
               (c = 403 \<and> refresh_outcome env = Returns ()) \<or> c = 429 \<or> (500 \<le> c \<and> c < 600)))"

section \<open>Python float arithmetic\<close>

text \<open>
  A Python float is an IEEE 754 double. A finite float is modelled by the rational number
  it denotes; an operation computes the exact result and rounds it to the nearest double,
  ties to even. \<open>round_to_double\<close> does the rounding with 53 significant bits, with the
  spacing \<open>2 ^ -1074\<close> below the normal range and no bound above it; \<open>overflows\<close> says
  that the rounded value is beyond the largest double, that is, at least \<open>2 ^ 1024\<close> in
  magnitude.
\<close>

definition pow2 :: "int \<Rightarrow> rat" where
  "pow2 e = (if 0 \<le> e then 2 ^ nat e else 1 / 2 ^ nat (- e))"

text \<open>The number of binary digits of a positive integer.\<close>

function bit_length :: "int \<Rightarrow> int" where
  "bit_length a = (if 0 < a then bit_length (a div 2) + 1 else 0)"
  by pat_completeness auto
termination
  by (relation "measure nat") auto

declare bit_length.simps [simp del]

text \<open>
  The integer \<open>e\<close> with \<open>2 ^ e \<le> x < 2 ^ (e + 1)\<close>, for \<open>x > 0\<close>: it is the difference
  of the bit lengths of numerator and denominator, or one less.
\<close>

definition floor_log2 :: "rat \<Rightarrow> int" where
  "floor_log2 x =
     (let (a, b) = quotient_of x;
          d = bit_length a - bit_length b
      in if pow2 d \<le> x then d else d - 1)"

definition round_half_even :: "rat \<Rightarrow> int" where
  "round_half_even r =
     (let f = \<lfloor>r\<rfloor>; d = r - of_int f
      in if d < 1 / 2 then f
         else if 1 / 2 < d then f + 1
         else if even f then f else f + 1)"

definition round_to_double :: "rat \<Rightarrow> rat" where
  "round_to_double x =
     (if x = 0 then 0
      else (let q = max (floor_log2 \<bar>x\<bar>) (- 1022) - 52
            in sgn x * of_int (round_half_even (\<bar>x\<bar> / pow2 q)) * pow2 q))"

definition overflows :: "rat \<Rightarrow> bool" where
  "overflows y = (y \<noteq> 0 \<and> 1024 \<le> floor_log2 \<bar>y\<bar>)"

text \<open>
  \<open>x / y\<close> and \<open>x * y\<close> on finite floats (\<open>y \<noteq> 0\<close> for the division). The quotient is
  used with a divisor of 100 only, where it cannot overflow. A product beyond the largest
  double is \<open>inf\<close>: \<open>None\<close>.
\<close>

definition float_truediv :: "rat \<Rightarrow> rat \<Rightarrow> rat" where
  "float_truediv x y = round_to_double (x / y)"

definition float_mul :: "rat \<Rightarrow> rat \<Rightarrow> rat option" where
  "float_mul x y =
     (let z = round_to_double (x * y) in if overflows z then None else Some z)"

text \<open>
  \<open>int(y)\<close> of a float: truncation towards zero; \<open>int(inf)\<close> raises
  \<open>OverflowError\<close>.
\<close>

definition py_int_of_float :: "rat option \<Rightarrow> py_exception + int" where
  "py_int_of_float y =
     (case y of
        None \<Rightarrow> Inl OverflowError
      | Some r \<Rightarrow> Inr (if 0 \<le> r then \<lfloor>r\<rfloor> else \<lceil>r\<rceil>))"

text \<open>
  The right operand of \<open>float * max_input_tokens\<close>: an int (a bool is one) is converted
  to float, which raises \<open>OverflowError\<close> when it is too large; a str, list or dict
  operand raises \<open>TypeError\<close>.
\<close>

fun float_operand :: "json \<Rightarrow> py_exception + rat" where
  "float_operand (JInt m) =
     (if overflows (round_to_double (of_int m)) then Inl OverflowError
      else Inr (round_to_double (of_int m)))"
| "float_operand (JBool b) = Inr (if b then 1 else 0)"
| "float_operand (JFloat r) = Inr r"
| "float_operand _ = Inl TypeError"

text \<open>\<open>int((self.context_usage_percentage / 100) * max_input_tokens)\<close>\<close>

definition total_tokens_from_api :: "rat \<Rightarrow> json \<Rightarrow> py_exception + int" where
  "total_tokens_from_api percentage max_input_tokens =
     (case float_operand max_input_tokens of
        Inl e \<Rightarrow> Inl e
      | Inr m \<Rightarrow> py_int_of_float (float_mul (float_truediv percentage 100) m))"

text \<open>
  The formula of the specification, for comparison: \<open>round(percent/100 \<times>
  max_input_tokens)\<close>, in exact arithmetic, rounded as Python's \<open>round\<close> does.
\<close>

definition spec_total_tokens :: "rat \<Rightarrow> int \<Rightarrow> int" where
  "spec_total_tokens percent max_input_tokens =
     round_half_even (percent / 100 * of_int max_input_tokens)"

section \<open>base_stream_handler.py: BaseStreamHandler\<close>

type_synonym bytes = string

text \<open>
  The events that \<open>AwsEventStreamParser.feed\<close> returns, by their \<open>"type"\<close> and
  \<open>"data"\<close>: content text, the metering blob, the context usage percentage (the value
  of a finite float or of an int), and any other type, which \<open>_process_events\<close> ignores.
\<close>

datatype event =
    ContentEvent string
  | UsageEvent json
  | ContextUsageEvent rat
  | OtherEvent string

text \<open>
  The modules \<open>kiro_gateway.parsers\<close> and \<open>kiro_gateway.tokenizer\<close> are collaborators:
  their functions are parameters of the model. \<open>'p\<close> is the parser's state, \<open>'tc\<close> a
  tool call, \<open>'m\<close> a request message, \<open>'t\<close> a request tool. \<open>feed\<close> returns the
  events and the new parser state, or raises; the other functions are taken to return.
\<close>

record ('p, 'tc) parsers =
  feed :: "'p \<Rightarrow> bytes \<Rightarrow> py_exception + event list \<times> 'p"
  get_tool_calls :: "'p \<Rightarrow> 'tc list"
  parse_bracket_tool_calls :: "string \<Rightarrow> 'tc list"
  deduplicate_tool_calls :: "'tc list \<Rightarrow> 'tc list"

record ('m, 't) tokenizer =
  count_tokens :: "string \<Rightarrow> int"
  count_message_tokens :: "'m list \<Rightarrow> int"
  count_tools_tokens :: "'t list \<Rightarrow> int"

text \<open>The handler object: the fields of \<open>self\<close> that the modelled methods use.\<close>

record ('p, 'm, 't) handler =
  model :: string
  model_cache :: "string \<rightharpoonup> json"
  request_messages :: "'m list option"
  request_tools :: "'t list option"
  parser :: 'p
  full_content :: string
  metering_data :: json
  context_usage_percentage :: "rat option"
  response_closed :: bool

text \<open>The state that \<open>__init__\<close> sets up, on an open response.\<close>

definition handler_init ::
  "string \<Rightarrow> (string \<rightharpoonup> json) \<Rightarrow> 'm list option \<Rightarrow> 't list option \<Rightarrow> 'p
     \<Rightarrow> ('p, 'm, 't) handler" where
  "handler_init mdl cache msgs tools p0 =
     \<lparr> model = mdl, model_cache = cache, request_messages = msgs, request_tools = tools,
       parser = p0, full_content = [], metering_data = JNull,
       context_usage_percentage = None, response_closed = False \<rparr>"

text \<open>
  \<open>_process_events\<close>: the loop over the events, with the local \<open>content\<close>. The result
  is the data of the last content event of the list.
\<close>

fun process_events_loop ::
  "event list \<Rightarrow> string option \<Rightarrow> ('p, 'm, 't) handler \<Rightarrow> string option \<times> ('p, 'm, 't) handler" where
  "process_events_loop [] content h = (content, h)"
| "process_events_loop (ContentEvent d # es) content h =
     process_events_loop es (Some d) (h\<lparr> full_content := full_content h @ d \<rparr>)"
| "process_events_loop (UsageEvent d # es) content h =
     process_events_loop es content (h\<lparr> metering_data := d \<rparr>)"
| "process_events_loop (ContextUsageEvent d # es) content h =
     process_events_loop es content (h\<lparr> context_usage_percentage := Some d \<rparr>)"
| "process_events_loop (OtherEvent ty # es) content h = process_events_loop es content h"

definition process_events ::
  "event list \<Rightarrow> ('p, 'm, 't) handler \<Rightarrow> string option \<times> ('p, 'm, 't) handler" where
  "process_events events h = process_events_loop events None h"

text \<open>\<open>if self.request_messages:\<close> \<open>prompt_tokens += count(...)\<close>\<close>

definition count_if_present :: "('a list \<Rightarrow> int) \<Rightarrow> 'a list option \<Rightarrow> int" where
  "count_if_present count xs =
     (case xs of None \<Rightarrow> 0 | Some l \<Rightarrow> if l = [] then 0 else count l)"

text \<open>\<open>_calculate_tokens\<close>: \<open>(prompt_tokens, completion_tokens, total_tokens)\<close>.\<close>

definition calculate_tokens ::
  "Settings \<Rightarrow> ('m, 't) tokenizer \<Rightarrow> ('p, 'm, 't) handler \<Rightarrow> py_exception + int \<times> int \<times> int" where
  "calculate_tokens s tok h =
     (let completion_tokens = count_tokens tok (full_content h);
          from_api =
            (case context_usage_percentage h of
               None \<Rightarrow> Inr 0
             | Some percentage \<Rightarrow>
                 if 0 < percentage then
                   (case get_max_input_tokens s (model_cache h) (model h) of
                      Inl e \<Rightarrow> Inl e
                    | Inr max_input_tokens \<Rightarrow> total_tokens_from_api percentage max_input_tokens)
                 else Inr 0)
      in case from_api of
           Inl e \<Rightarrow> Inl e
         | Inr api_total \<Rightarrow>
             if 0 < api_total then
               Inr (max 0 (api_total - completion_tokens), completion_tokens, api_total)
             else
               (let prompt_tokens =
                      0 + count_if_present (count_message_tokens tok) (request_messages h)
                        + count_if_present (count_tools_tokens tok) (request_tools h)
                in Inr (prompt_tokens, completion_tokens, prompt_tokens + completion_tokens)))"

text \<open>
  What \<open>stream\<close> yields. The four \<open>_format_...\<close> methods and \<open>_serialize_chunk\<close>
  are abstract, so a yielded chunk is recorded by the call that made it:
  \<open>_format_content_chunk(content, first_chunk)\<close>,
  \<open>_format_tool_calls_chunk([tc], idx)\<close>, \<open>_format_final_chunk(finish_reason,
  prompt_tokens, completion_tokens, total_tokens)\<close> with the \<open>credits_used\<close> entry when
  it is set, and the terminator \<open>{"type": "done"}\<close>.
\<close>

datatype 'tc chunk =
    ContentChunk string bool
  | ToolCallsChunk "'tc list" nat
  | FinalChunk string int int int "json option"
  | DoneChunk

text \<open>
  The upstream response as the handler sees it. The first read under
  \<open>asyncio.wait_for\<close> gives a chunk, times out, finds the stream at its end
  (\<open>StopAsyncIteration\<close>) or raises something else. The \<open>async for\<close> over
  \<open>self.response.aiter_bytes()\<close> then delivers \<open>more_chunks\<close> and ends normally or, with
  \<open>more_end = Some e\<close>, by raising \<open>e\<close>.
\<close>

datatype first_read = FirstChunk bytes | FirstTimeout | FirstStop | FirstRaises py_exception

record upstream =
  first_read :: first_read
  more_chunks :: "bytes list"
  more_end :: "py_exception option"

definition read_first_chunk_with_timeout :: "first_read \<Rightarrow> py_exception + bytes option" where
  "read_first_chunk_with_timeout r =
     (case r of
        FirstChunk b \<Rightarrow> Inr (Some b)
      | FirstTimeout \<Rightarrow> Inl FirstTokenTimeoutError
      | FirstStop \<Rightarrow> Inr None
      | FirstRaises e \<Rightarrow> Inl e)"

text \<open>
  A run of generator code: the chunks yielded so far, the handler, and the exception that
  ended the run, if one did.
\<close>

type_synonym ('p, 'm, 't, 'tc) run = "'tc chunk list \<times> ('p, 'm, 't) handler \<times> py_exception option"

text \<open>The \<open>async for\<close> loop of \<open>stream\<close>, with the local \<open>first_chunk_sent\<close>.\<close>

fun content_loop ::
  "('p, 'tc) parsers \<Rightarrow> bytes list \<Rightarrow> bool \<Rightarrow> ('p, 'm, 't) handler \<Rightarrow> ('p, 'm, 't, 'tc) run" where
  "content_loop P [] first_chunk_sent h = ([], h, None)"
| "content_loop P (c # cs) first_chunk_sent h =
     (case feed P (parser h) c of
        Inl e \<Rightarrow> ([], h, Some e)
      | Inr (events, p') \<Rightarrow>
          (case process_events events (h\<lparr> parser := p' \<rparr>) of
             (Some content, h') \<Rightarrow>
               if content \<noteq> [] then
                 (case content_loop P cs True h' of
                    (out, h'', e) \<Rightarrow> (ContentChunk content (\<not> first_chunk_sent) # out, h'', e))
               else content_loop P cs first_chunk_sent h'
           | (None, h') \<Rightarrow> content_loop P cs first_chunk_sent h'))"

text \<open>The part of \<open>stream\<close> after the loop: tool calls, final chunk, terminator.\<close>

definition finish_stream ::
  "Settings \<Rightarrow> ('p, 'tc) parsers \<Rightarrow> ('m, 't) tokenizer \<Rightarrow> ('p, 'm, 't) handler
     \<Rightarrow> ('p, 'm, 't, 'tc) run" where
  "finish_stream s P tok h =
     (let bracket_tool_calls = parse_bracket_tool_calls P (full_content h);
          all_tool_calls =
            deduplicate_tool_calls P (get_tool_calls P (parser h) @ bracket_tool_calls);
          tool_chunks = map (\<lambda>(idx, tc). ToolCallsChunk [tc] idx) (enumerate 0 all_tool_calls);
          finish_reason = (if all_tool_calls \<noteq> [] then ''tool_calls'' else ''stop'')
      in case calculate_tokens s tok h of
           Inl e \<Rightarrow> (tool_chunks, h, Some e)
         | Inr (prompt_tokens, completion_tokens, total_tokens) \<Rightarrow>
             (tool_chunks @
                [FinalChunk finish_reason prompt_tokens completion_tokens total_tokens
                   (if truthy (metering_data h) then Some (metering_data h) else None),
                 DoneChunk],
              h, None))"

text \<open>The body of the \<open>try\<close> block of \<open>stream\<close>.\<close>

definition stream_body ::
  "Settings \<Rightarrow> ('p, 'tc) parsers \<Rightarrow> ('m, 't) tokenizer \<Rightarrow> upstream \<Rightarrow> ('p, 'm, 't) handler
     \<Rightarrow> ('p, 'm, 't, 'tc) run" where
  "stream_body s P tok up h =
     (case read_first_chunk_with_timeout (first_read up) of
        Inl e \<Rightarrow> ([], h, Some e)
      | Inr None \<Rightarrow> ([DoneChunk], h, None)
      | Inr (Some first_byte_chunk) \<Rightarrow>
          (case feed P (parser h) first_byte_chunk of
             Inl e \<Rightarrow> ([], h, Some e)
           | Inr (events, p') \<Rightarrow>
               (case process_events events (h\<lparr> parser := p' \<rparr>) of
                  (first_content, h1) \<Rightarrow>
                    (let first_chunk_sent =
                           (case first_content of None \<Rightarrow> False | Some c \<Rightarrow> c \<noteq> []);
                         first_out =
                           (case first_content of
                              None \<Rightarrow> []
                            | Some c \<Rightarrow> if c \<noteq> [] then [ContentChunk c True] else [])
                     in case content_loop P (more_chunks up) first_chunk_sent h1 of
                          (out, h2, Some e) \<Rightarrow> (first_out @ out, h2, Some e)
                        | (out, h2, None) \<Rightarrow>
                            (case more_end up of
                               Some e \<Rightarrow> (first_out @ out, h2, Some e)
                             | None \<Rightarrow>
                                 (case finish_stream s P tok h2 of
                                    (fin, h3, e) \<Rightarrow> (first_out @ out @ fin, h3, e)))))))"

text \<open>
  What the consumer of the generator observes: the chunks, the exception that comes out of
  the generator (if any), the errors logged, and the handler at the end.
\<close>

record ('p, 'm, 't, 'tc) stream_result =
  chunks :: "'tc chunk list"
  raised :: "py_exception option"
  logged :: "py_exception list"
  final_handler :: "('p, 'm, 't) handler"

text \<open>
  The \<open>except\<close> clauses: \<open>FirstTokenTimeoutError\<close> is raised again; any other instance
  of \<open>Exception\<close> is logged and the generator ends; an exception that is not an instance
  of \<open>Exception\<close> matches no clause and goes on to the consumer.
\<close>

definition except_clauses :: "py_exception option \<Rightarrow> py_exception option \<times> py_exception list" where
  "except_clauses exc =
     (case exc of
        None \<Rightarrow> (None, [])
      | Some e \<Rightarrow>
          if e = FirstTokenTimeoutError then (Some e, [])
          else if is_Exception e then (None, [e])
          else (Some e, []))"

text \<open>
  The \<open>finally\<close> clause: \<open>await self.response.aclose()\<close>, which is taken to return.
\<close>

definition aclose :: "('p, 'm, 't) handler \<Rightarrow> ('p, 'm, 't) handler" where
  "aclose h = h\<lparr> response_closed := True \<rparr>"

definition stream ::
  "Settings \<Rightarrow> ('p, 'tc) parsers \<Rightarrow> ('m, 't) tokenizer \<Rightarrow> upstream \<Rightarrow> ('p, 'm, 't) handler
     \<Rightarrow> ('p, 'm, 't, 'tc) stream_result" where
  "stream s P tok up h =
     (case stream_body s P tok up h of
        (out, h', exc) \<Rightarrow>
          (case except_clauses exc of
             (propagated, errors) \<Rightarrow>
               \<lparr> chunks = out, raised = propagated, logged = errors,
                 final_handler = aclose h' \<rparr>))"

text \<open>
  The order of the four kinds of chunk, and the \<open>first_chunk\<close> flags of the content
  chunks of a sequence, in order.
\<close>

fun chunk_rank :: "'tc chunk \<Rightarrow> nat" where
  "chunk_rank (ContentChunk c b) = 0"
| "chunk_rank (ToolCallsChunk tcs idx) = 1"
| "chunk_rank (FinalChunk r p c t u) = 2"
| "chunk_rank DoneChunk = 3"

fun first_flags :: "'tc chunk list \<Rightarrow> bool list" where
  "first_flags [] = []"
| "first_flags (ContentChunk c b # cs) = b # first_flags cs"
| "first_flags (x # cs) = first_flags cs"

definition ordered_chunks :: "'tc chunk list \<Rightarrow> bool" where
  "ordered_chunks cs =
     (sorted (map chunk_rank cs) \<and>
      (first_flags cs = [] \<or>
       first_flags cs = True # replicate (length (first_flags cs) - 1) False))"

text \<open>
  Collaborators for concrete runs: a parser without state that turns every byte chunk into
  one content event and knows no tool calls, and a tokenizer that counts characters.
\<close>

definition echo_parsers :: "(unit, string) parsers" where
  "echo_parsers =
     \<lparr> feed = (\<lambda>p b. Inr ([ContentEvent b], p)),
       get_tool_calls = (\<lambda>p. []),
       parse_bracket_tool_calls = (\<lambda>text. []),
       deduplicate_tool_calls = (\<lambda>tcs. tcs) \<rparr>"

definition length_tokenizer :: "(string, string) tokenizer" where
  "length_tokenizer =
     \<lparr> count_tokens = (\<lambda>text. int (length text)),
       count_message_tokens = (\<lambda>msgs. int (length (concat msgs))),
       count_tools_tokens = (\<lambda>tools. int (length (concat tools))) \<rparr>"

text \<open>
  Concrete upstreams: one whose first read gives the chunk \<open>Hello\<close> and whose iteration
  after that raises an instance of \<open>Exception\<close> at once, before it delivers anything; one
  whose first read raises; one whose first read runs into the timeout. And a fresh handler
  for a model that the cache does not hold.
\<close>

definition hello_then_raises :: upstream where
  "hello_then_raises =
     \<lparr> first_read = FirstChunk ''Hello'', more_chunks = [], more_end = Some OtherException \<rparr>"

definition first_read_raises :: "py_exception \<Rightarrow> upstream" where
  "first_read_raises e = \<lparr> first_read = FirstRaises e, more_chunks = [], more_end = None \<rparr>"

definition first_read_times_out :: upstream where
  "first_read_times_out = \<lparr> first_read = FirstTimeout, more_chunks = [], more_end = None \<rparr>"

definition handler0 :: "(unit, string, string) handler" where
  "handler0 = handler_init ''claude-sonnet-4'' Map.empty None None ()"

text \<open>
  A handler at the end of a stream: the cache holds the model with the given
  \<open>maxInputTokens\<close>, the text \<open>Hello\<close> has been accumulated, and the upstream has
  reported the given context usage percentage.
\<close>

definition handler_at :: "rat \<Rightarrow> int \<Rightarrow> (unit, string, string) handler" where
  "handler_at percentage limit =
     (handler_init ''m''
        [''m'' \<mapsto> JObj [(''modelId'', JStr ''m''),
                            (''tokenLimits'', JObj [(''maxInputTokens'', JInt limit)])]]
        None None ())
     \<lparr> full_content := ''Hello'', context_usage_percentage := Some percentage \<rparr>"

section \<open>Verified properties\<close>

subsection \<open>The gauge\<close>

lemma gauge_step_nonneg: "0 \<le> active_connections m \<Longrightarrow> 0 \<le> active_connections (gauge_step m c)"
  by (cases c) (simp_all add: inc_active_connections_def dec_active_connections_def)

lemma foldl_gauge_nonneg:
  "0 \<le> active_connections m \<Longrightarrow> 0 \<le> active_connections (foldl gauge_step m calls)"
  by (induction calls arbitrary: m) (simp_all add: gauge_step_nonneg)

text \<open>
  C10. The gauge starts at 0 and, after any sequence of \<open>inc_active_connections\<close> and
  \<open>dec_active_connections\<close> calls, is still at least 0.
\<close>

theorem active_connections_never_negative:
  "active_connections metrics_init = 0 \<and> 0 \<le> active_connections (run_gauge_calls calls)"
proof -
  have start: "active_connections metrics_init = 0"
    by (simp add: metrics_init_def)
  then have "0 \<le> active_connections (foldl gauge_step metrics_init calls)"
    by (intro foldl_gauge_nonneg) simp
  with start show ?thesis
    by (simp add: run_gauge_calls_def)
qed

subsection \<open>Model name translation\<close>

lemma MODEL_MAPPING_distinct: "distinct (map fst MODEL_MAPPING)"
  by (simp add: MODEL_MAPPING_def)

text \<open>
  C7. A name that is not a key of \<open>MODEL_MAPPING\<close> is returned unchanged; a key of the
  table is translated to the id the table gives for it.
\<close>

theorem get_internal_model_id_table:
  "(name \<notin> fst ` set MODEL_MAPPING \<longrightarrow> get_internal_model_id name = name) \<and>
   ((name, internal) \<in> set MODEL_MAPPING \<longrightarrow> get_internal_model_id name = internal)"
proof (intro conjI impI)
  assume "name \<notin> fst ` set MODEL_MAPPING"
  then have "map_of MODEL_MAPPING name = None"
    by (simp add: map_of_eq_None_iff)
  then show "get_internal_model_id name = name"
    by (simp add: get_internal_model_id_def)
next
  assume "(name, internal) \<in> set MODEL_MAPPING"
  then have "map_of MODEL_MAPPING name = Some internal"
    using MODEL_MAPPING_distinct by (rule map_of_is_SomeI[rotated])
  then show "get_internal_model_id name = internal"
    by (simp add: get_internal_model_id_def)
qed

theorem get_internal_model_id_table_witness:
  "''gpt-4o'' \<notin> fst ` set MODEL_MAPPING \<and> get_internal_model_id ''gpt-4o'' = ''gpt-4o'' \<and>
   (''auto'', ''claude-sonnet-4.5'') \<in> set MODEL_MAPPING \<and>
   get_internal_model_id ''auto'' = ''claude-sonnet-4.5''"
proof -
  have a: "''gpt-4o'' \<notin> fst ` set MODEL_MAPPING"
    by (simp add: MODEL_MAPPING_def)
  have b: "(''auto'', ''claude-sonnet-4.5'') \<in> set MODEL_MAPPING"
    by (simp add: MODEL_MAPPING_def)
  from a b get_internal_model_id_table[of "''gpt-4o''" "''x''"]
    get_internal_model_id_table[of "''auto''" "''claude-sonnet-4.5''"]
  show ?thesis by blast
qed

subsection \<open>The model cache lookup\<close>

lemma map_of_Some_nonempty: "map_of kvs k = Some v \<Longrightarrow> kvs \<noteq> []"
  by auto

text \<open>
  C6, as the code has it. With the default settings the fallback is 200000. A model id
  that is not in the cache gets the fallback. A cached model whose \<open>tokenLimits\<close> dict
  holds a truthy \<open>maxInputTokens\<close> (not \<open>None\<close>, not 0) gets that value.
\<close>

theorem get_max_input_tokens_truthy_value:
  "default_max_input_tokens Settings_default = 200000 \<and>
   (cache model_id = None \<longrightarrow>
      get_max_input_tokens s cache model_id = Inr (JInt (default_max_input_tokens s))) \<and>
   (cache model_id = Some (JObj entry) \<and>
    map_of entry ''tokenLimits'' = Some (JObj limits) \<and>
    map_of limits ''maxInputTokens'' = Some v \<and> truthy v \<longrightarrow>
      get_max_input_tokens s cache model_id = Inr v)"
  by (auto simp: Settings_default_def get_max_input_tokens_def Let_def
        dest: map_of_Some_nonempty)

theorem get_max_input_tokens_truthy_value_witness:
  "default_max_input_tokens Settings_default = 200000 \<and>
   get_max_input_tokens Settings_default Map.empty ''claude-sonnet-4'' = Inr (JInt 200000) \<and>
   get_max_input_tokens Settings_default
      [''m'' \<mapsto> JObj [(''modelId'', JStr ''m''),
                          (''tokenLimits'', JObj [(''maxInputTokens'', JInt 128000)])]] ''m''
     = Inr (JInt 128000)"
  using get_max_input_tokens_truthy_value[where cache = Map.empty
      and model_id = "''claude-sonnet-4''" and s = Settings_default]
    get_max_input_tokens_truthy_value[where
      cache = "[''m'' \<mapsto> JObj [(''modelId'', JStr ''m''),
                          (''tokenLimits'', JObj [(''maxInputTokens'', JInt 128000)])]]"
      and model_id = "''m''"
      and entry = "[(''modelId'', JStr ''m''),
                    (''tokenLimits'', JObj [(''maxInputTokens'', JInt 128000)])]"
      and limits = "[(''maxInputTokens'', JInt 128000)]" and v = "JInt 128000"
      and s = Settings_default]
  by simp

text \<open>
  C6 as stated fails where the cached value is 0: the model has a
  \<open>tokenLimits.maxInputTokens\<close> value, and the lookup returns 200000, not that value.
\<close>

theorem get_max_input_tokens_zero_counterexample:
  "get_max_input_tokens Settings_default
      [''m'' \<mapsto> JObj [(''modelId'', JStr ''m''),
                          (''tokenLimits'', JObj [(''maxInputTokens'', JInt 0)])]] ''m''
     \<noteq> Inr (JInt 0)"
  by (simp add: get_max_input_tokens_def Settings_default_def)

text \<open>
  C9. For a cached model the lookup returns the fallback (200000 with the default
  settings) when \<open>tokenLimits\<close> is missing, when it is falsy (\<open>None\<close>, an empty dict),
  and when its \<open>maxInputTokens\<close> is 0 or \<open>None\<close>.
\<close>

theorem get_max_input_tokens_falsy_default:
  assumes "cache model_id = Some (JObj entry)"
    and "map_of entry ''tokenLimits'' = None
       \<or> (\<exists>limits. map_of entry ''tokenLimits'' = Some limits \<and> \<not> truthy limits)
       \<or> (\<exists>limits. map_of entry ''tokenLimits'' = Some (JObj limits) \<and>
             (map_of limits ''maxInputTokens'' = Some (JInt 0)
              \<or> map_of limits ''maxInputTokens'' = Some JNull))"
  shows "get_max_input_tokens s cache model_id = Inr (JInt (default_max_input_tokens s))
       \<and> default_max_input_tokens Settings_default = 200000"
  using assms
  by (auto simp: Settings_default_def get_max_input_tokens_def Let_def
        dest: map_of_Some_nonempty)

theorem get_max_input_tokens_falsy_default_witness:
  "get_max_input_tokens Settings_default
      [''m'' \<mapsto> JObj [(''modelId'', JStr ''m''),
                          (''tokenLimits'', JObj [(''maxInputTokens'', JInt 0)])]] ''m''
     = Inr (JInt 200000) \<and>
   get_max_input_tokens Settings_default
      [''m'' \<mapsto> JObj [(''modelId'', JStr ''m'')]] ''m'' = Inr (JInt 200000) \<and>
   get_max_input_tokens Settings_default
      [''m'' \<mapsto> JObj [(''modelId'', JStr ''m''), (''tokenLimits'', JObj [])]] ''m''
     = Inr (JInt 200000)"
proof -
  have zero: "get_max_input_tokens Settings_default
      [''m'' \<mapsto> JObj [(''modelId'', JStr ''m''),
                          (''tokenLimits'', JObj [(''maxInputTokens'', JInt 0)])]] ''m''
     = Inr (JInt (default_max_input_tokens Settings_default))
     \<and> default_max_input_tokens Settings_default = 200000"
    by (rule get_max_input_tokens_falsy_default[where
          entry = "[(''modelId'', JStr ''m''),
                    (''tokenLimits'', JObj [(''maxInputTokens'', JInt 0)])]"]) simp_all
  have missing: "get_max_input_tokens Settings_default
      [''m'' \<mapsto> JObj [(''modelId'', JStr ''m'')]] ''m''
     = Inr (JInt (default_max_input_tokens Settings_default))
     \<and> default_max_input_tokens Settings_default = 200000"
    by (rule get_max_input_tokens_falsy_default[where
          entry = "[(''modelId'', JStr ''m'')]"]) simp_all
  have empty: "get_max_input_tokens Settings_default
      [''m'' \<mapsto> JObj [(''modelId'', JStr ''m''), (''tokenLimits'', JObj [])]] ''m''
     = Inr (JInt (default_max_input_tokens Settings_default))
     \<and> default_max_input_tokens Settings_default = 200000"
    by (rule get_max_input_tokens_falsy_default[where
          entry = "[(''modelId'', JStr ''m''), (''tokenLimits'', JObj [])]"]) simp_all
  from zero missing empty show ?thesis by simp
qed

subsection \<open>The retry loop\<close>

lemma attempt_body_retryable:
  assumes "gets_retryable_response env"
  shows "\<exists>t'. attempt_body streaming env attempt t = (Continue, t')
             \<and> requests_sent t' = requests_sent t + 1"
  using assms
  by (auto simp: gets_retryable_response_def attempt_body_def backoff_def Let_def
        split: outcome.splits)

lemma retry_loop_retryable:
  assumes "\<And>i. attempt \<le> i \<Longrightarrow> i < attempt + n \<Longrightarrow> gets_retryable_response (env i)"
  shows "\<exists>t'. retry_loop streaming env attempt n t = (None, t')
             \<and> requests_sent t' = requests_sent t + n"
  using assms
proof (induction n arbitrary: attempt t)
  case 0
  then show ?case by simp
next
  case (Suc n)
  have "gets_retryable_response (env attempt)"
    by (rule Suc.prems) simp_all
  then obtain t1 where t1: "attempt_body streaming (env attempt) attempt t = (Continue, t1)"
      "requests_sent t1 = requests_sent t + 1"
    using attempt_body_retryable by blast
  have "\<exists>t'. retry_loop streaming env (Suc attempt) n t1 = (None, t')
             \<and> requests_sent t' = requests_sent t1 + n"
    by (rule Suc.IH) (simp_all add: Suc.prems)
  with t1 show ?case by auto
qed

text \<open>
  C1, as the code has it. When every attempt allowed by the budget ends in a retryable
  response, the client sends exactly \<open>max_retries\<close> requests (\<open>first_token_max_retries\<close>
  for a streaming request), and then fails.
\<close>

theorem retry_budget_is_max_retries:
  assumes "\<forall>i < retry_budget s streaming. gets_retryable_response (env i)"
  shows "requests_sent (snd (request_with_retry s streaming env))
           = nat (if streaming then first_token_max_retries s else max_retries s)
       \<and> isl (fst (request_with_retry s streaming env))"
proof -
  obtain t' where t': "retry_loop streaming env 0 (retry_budget s streaming) trace_init = (None, t')"
      "requests_sent t' = requests_sent trace_init + retry_budget s streaming"
    using retry_loop_retryable[of 0 "retry_budget s streaming" env streaming trace_init] assms
    by auto
  then show ?thesis
    by (simp add: request_with_retry_def trace_init_def retry_budget_def)
qed

theorem retry_budget_is_max_retries_witness:
  "gets_retryable_response (responds 429) \<and>
   requests_sent (snd (request_with_retry Settings_default False (\<lambda>_. responds 429))) = 3 \<and>
   isl (fst (request_with_retry Settings_default False (\<lambda>_. responds 429)))"
proof -
  have h: "\<forall>i < retry_budget Settings_default False. gets_retryable_response (responds 429)"
    by (simp add: gets_retryable_response_def responds_def)
  have r: "gets_retryable_response (responds 429)"
    by (simp add: gets_retryable_response_def responds_def)
  from r retry_budget_is_max_retries[of Settings_default False "\<lambda>_. responds 429", OF h]
  show ?thesis by (simp add: Settings_default_def)
qed

text \<open>
  C1 as stated fails: with the default \<open>max_retries = 3\<close> and an upstream that always
  answers 429, the client sends 3 requests, not 4.
\<close>

theorem retry_budget_plus_one_counterexample:
  "requests_sent (snd (request_with_retry Settings_default False (\<lambda>_. responds 429)))
     \<noteq> nat (max_retries Settings_default + 1)"
  by code_simp







lemma raise_HTTPException_NameError: "raise_HTTPException status_code = NameError ''HTTPException''"
  by (simp add: raise_HTTPException_def http_client_globals_def)

text \<open>
  C2 on the code. When the loop runs out, the function evaluates
  \<open>raise HTTPException(status_code=502, ...)\<close> (504 when streaming), but
  \<open>http_client.py\<close> never imports \<open>HTTPException\<close>: what is raised is a
  \<open>NameError\<close>, for a non-streaming request answered with 429 three times as well as
  for a streaming request that times out three times.
\<close>

theorem exhausted_retries_raise_NameError:
  "fst (request_with_retry Settings_default False (\<lambda>_. responds 429))
     = Inl (NameError ''HTTPException'') \<and>
   fst (request_with_retry Settings_default True
          (\<lambda>_. \<lparr> token_outcome = Returns (), send_outcome = Raises TimeoutException,
                  refresh_outcome = Returns () \<rparr>))
     = Inl (NameError ''HTTPException'')"
  by code_simp

subsection \<open>The order of the streamed chunks\<close>

lemma first_flags_append: "first_flags (xs @ ys) = first_flags xs @ first_flags ys"
  by (induction xs rule: first_flags.induct) simp_all

lemma sorted_single_rank: "set xs \<subseteq> {c} \<Longrightarrow> sorted (xs :: nat list)"
  by (induction xs) auto

lemma content_loop_ranks:
  "content_loop P cs sent h = (out, h', e) \<Longrightarrow> set (map chunk_rank out) \<subseteq> {0}"
proof (induction cs arbitrary: sent h out h' e)
  case Nil
  then show ?case by simp
next
  case (Cons c cs)
  then show ?case
    by (fastforce split: sum.splits prod.splits option.splits if_splits)
qed

lemma content_loop_flags:
  "content_loop P cs sent h = (out, h', e) \<Longrightarrow>
     length (first_flags out) = length out \<and>
     first_flags out = (if out = [] then [] else (\<not> sent) # replicate (length out - 1) False)"
proof (induction cs arbitrary: sent h out h' e)
  case Nil
  then show ?case by simp
next
  case (Cons c cs)
  show ?case
  proof (cases "feed P (parser h) c")
    case (Inl x)
    with Cons.prems show ?thesis by simp
  next
    case (Inr r)
    obtain events p' where r: "r = (events, p')" by (cases r)
    obtain content h1 where pe: "process_events events (h\<lparr>parser := p'\<rparr>) = (content, h1)"
      by (cases "process_events events (h\<lparr>parser := p'\<rparr>)")
    show ?thesis
    proof (cases "\<exists>d. content = Some d \<and> d \<noteq> []")
      case True
      then obtain d where d: "content = Some d" "d \<noteq> []" by blast
      obtain out1 h2 e2 where rec: "content_loop P cs True h1 = (out1, h2, e2)"
        by (cases "content_loop P cs True h1")
      from Cons.prems Inr r pe d rec
      have out: "out = ContentChunk d (\<not> sent) # out1" by simp
      from Cons.IH[OF rec] have
        "length (first_flags out1) = length out1"
        "first_flags out1 = (if out1 = [] then [] else False # replicate (length out1 - 1) False)"
        by simp_all
      then have "first_flags out1 = replicate (length out1) False"
        by (cases out1) simp_all
      with out show ?thesis by simp
    next
      case False
      with Cons.prems Inr r pe have "content_loop P cs sent h1 = (out, h', e)"
        by (auto split: option.splits if_splits)
      from Cons.IH[OF this] show ?thesis .
    qed
  qed
qed

lemma rank_tool_chunks:
  "set (map chunk_rank (map (\<lambda>(idx, tc). ToolCallsChunk [tc] idx) xs)) \<subseteq> {1}"
  by (induction xs) auto

lemma flags_tool_chunks:
  "first_flags (map (\<lambda>(idx, tc). ToolCallsChunk [tc] idx) xs) = []"
  by (induction xs) auto

lemma finish_stream_ranks:
  assumes "finish_stream s P tok h = (fin, h', e)"
  shows "sorted (map chunk_rank fin) \<and> (\<forall>r \<in> set (map chunk_rank fin). 1 \<le> r)
       \<and> first_flags fin = []"
proof -
  define tcs where "tcs = map (\<lambda>(idx, tc). ToolCallsChunk [tc] idx)
     (enumerate 0 (deduplicate_tool_calls P
        (get_tool_calls P (parser h) @ parse_bracket_tool_calls P (full_content h))))"
  have r: "set (map chunk_rank tcs) \<subseteq> {1}" and f: "first_flags tcs = []"
    unfolding tcs_def by (rule rank_tool_chunks, rule flags_tool_chunks)
  have s: "sorted (map chunk_rank tcs)"
    using r by (rule sorted_single_rank)
  consider (err) "fin = tcs" | (ok) fc where "fin = tcs @ [fc, DoneChunk]" "chunk_rank fc = 2"
      "first_flags [fc, DoneChunk] = []"
    using assms unfolding finish_stream_def Let_def tcs_def[symmetric]
    by (auto split: sum.splits prod.splits)
  then show ?thesis
  proof cases
    case err
    with r s f show ?thesis by auto
  next
    case ok
    with r s f show ?thesis
      by (auto simp: sorted_append first_flags_append)
  qed
qed

lemma compose_order:
  assumes fo: "first_out = [] \<and> \<not> sent \<or> (\<exists>c. first_out = [ContentChunk c True]) \<and> sent"
    and r1: "set (map chunk_rank out1) \<subseteq> {0}"
    and f1: "length (first_flags out1) = length out1"
      "first_flags out1 = (if out1 = [] then [] else (\<not> sent) # replicate (length out1 - 1) False)"
    and fin: "sorted (map chunk_rank fin)" "\<forall>r \<in> set (map chunk_rank fin). 1 \<le> r"
      "first_flags fin = []"
  shows "ordered_chunks (first_out @ out1 @ fin)"
proof -
  have s1: "sorted (map chunk_rank out1)"
    using r1 by (rule sorted_single_rank)
  have z: "\<forall>x \<in> set (map chunk_rank out1). x = 0"
    using r1 by auto
  have mid: "sorted (map chunk_rank (out1 @ fin))"
    using s1 fin(1) z by (auto simp: sorted_append)
  have srt: "sorted (map chunk_rank (first_out @ out1 @ fin))"
    using fo mid by auto
  have flags: "first_flags (first_out @ out1 @ fin) = first_flags first_out @ first_flags out1"
    by (simp add: first_flags_append fin(3))
  from fo show ?thesis
  proof
    assume a: "first_out = [] \<and> \<not> sent"
    then have "first_flags (first_out @ out1 @ fin) = first_flags out1"
      using flags by simp
    moreover have "first_flags out1 = [] \<or>
        first_flags out1 = True # replicate (length (first_flags out1) - 1) False"
      using f1 a by (cases "out1 = []") simp_all
    ultimately show ?thesis
      using srt by (simp add: ordered_chunks_def)
  next
    assume a: "(\<exists>c. first_out = [ContentChunk c True]) \<and> sent"
    then obtain c where c: "first_out = [ContentChunk c True]" by blast
    have "first_flags out1 = replicate (length out1) False"
      using f1 a by (cases out1) simp_all
    then have "first_flags (first_out @ out1 @ fin) = True # replicate (length out1) False"
      using flags c by simp
    then show ?thesis
      using srt by (simp add: ordered_chunks_def)
  qed
qed

lemma ordered_chunks_Done: "ordered_chunks [DoneChunk]"
  by (simp add: ordered_chunks_def)

lemma ordered_chunks_Nil: "ordered_chunks []"
  by (simp add: ordered_chunks_def)

lemma stream_body_ordered:
  assumes "stream_body s (P :: ('p, 'tc) parsers) tok up h = (out, h', e)"
  shows "ordered_chunks out"
proof (cases "read_first_chunk_with_timeout (first_read up)")
  case (Inl x)
  with assms show ?thesis
    by (simp add: stream_body_def ordered_chunks_Nil)
next
  case rf: (Inr first)
  show ?thesis
  proof (cases first)
    case None
    with assms rf show ?thesis
      by (auto simp: stream_body_def ordered_chunks_Done)
  next
    case (Some b)
    show ?thesis
    proof (cases "feed P (parser h) b")
      case (Inl x)
      with assms rf Some show ?thesis
        by (auto simp: stream_body_def ordered_chunks_Nil)
    next
      case fd: (Inr r)
      obtain events p' where r: "r = (events, p')" by (cases r)
      obtain first_content h1 where pe:
        "process_events events (h\<lparr>parser := p'\<rparr>) = (first_content, h1)"
        by (cases "process_events events (h\<lparr>parser := p'\<rparr>)")
      define sent where "sent = (case first_content of None \<Rightarrow> False | Some c \<Rightarrow> c \<noteq> [])"
      define first_out :: "'tc chunk list" where "first_out =
        (case first_content of None \<Rightarrow> [] | Some c \<Rightarrow> if c \<noteq> [] then [ContentChunk c True] else [])"
      obtain out1 h2 e1 where cl: "content_loop P (more_chunks up) sent h1 = (out1, h2, e1)"
        by (cases "content_loop P (more_chunks up) sent h1")
      have fo: "first_out = [] \<and> \<not> sent \<or> (\<exists>c. first_out = [ContentChunk c True]) \<and> sent"
        unfolding first_out_def sent_def by (auto split: option.splits)
      note r1 = content_loop_ranks[OF cl]
      note f1 = content_loop_flags[OF cl]
      have body: "stream_body s P tok up h =
        (case (out1, h2, e1) of
           (out, h2, Some e) \<Rightarrow> (first_out @ out, h2, Some e)
         | (out, h2, None) \<Rightarrow>
             (case more_end up of
                Some e \<Rightarrow> (first_out @ out, h2, Some e)
              | None \<Rightarrow>
                  (case finish_stream s P tok h2 of
                     (fin, h3, e) \<Rightarrow> (first_out @ out @ fin, h3, e))))"
      proof -
        have "stream_body s P tok up h =
          (case content_loop P (more_chunks up) sent h1 of
             (out, h2, Some e) \<Rightarrow> (first_out @ out, h2, Some e)
           | (out, h2, None) \<Rightarrow>
               (case more_end up of
                  Some e \<Rightarrow> (first_out @ out, h2, Some e)
                | None \<Rightarrow>
                    (case finish_stream s P tok h2 of
                       (fin, h3, e) \<Rightarrow> (first_out @ out @ fin, h3, e))))"
          unfolding sent_def first_out_def
          by (simp add: stream_body_def rf Some fd r pe Let_def)
        then show ?thesis by (simp add: cl)
      qed
      obtain fin h3 e3 where fs: "finish_stream s P tok h2 = (fin, h3, e3)"
        by (cases "finish_stream s P tok h2")
      note fr = finish_stream_ranks[OF fs]
      have "out = first_out @ out1 @ [] \<or> out = first_out @ out1 @ fin"
        using assms body fs by (auto split: option.splits)
      then show ?thesis
      proof
        assume "out = first_out @ out1 @ []"
        moreover have "ordered_chunks (first_out @ out1 @ [])"
          using fo r1 f1 by (intro compose_order) simp_all
        ultimately show ?thesis by simp
      next
        assume "out = first_out @ out1 @ fin"
        moreover have "ordered_chunks (first_out @ out1 @ fin)"
          using fo r1 f1 fr by (intro compose_order) simp_all
        ultimately show ?thesis by simp
      qed
    qed
  qed
qed

text \<open>
  C4. In every chunk sequence that \<open>stream\<close> yields, whatever the upstream delivers or
  raises, the kinds of chunk come in the order content, tool call, final, terminator, and
  of the content chunks the first is marked as first and no other is.
\<close>

theorem stream_chunk_order:
  "sorted (map chunk_rank (chunks (stream s P tok up h))) \<and>
   (first_flags (chunks (stream s P tok up h)) = [] \<or>
    first_flags (chunks (stream s P tok up h)) =
      True # replicate (length (first_flags (chunks (stream s P tok up h))) - 1) False)"
proof -
  obtain out h' e where b: "stream_body s P tok up h = (out, h', e)"
    by (cases "stream_body s P tok up h")
  have "chunks (stream s P tok up h) = out"
    by (simp add: stream_def b split: prod.splits)
  with stream_body_ordered[OF b] show ?thesis
    by (simp add: ordered_chunks_def)
qed

subsection \<open>Exceptions while streaming\<close>

lemma stream_closes: "response_closed (final_handler (stream s P tok up h))"
  by (simp add: stream_def aclose_def split: prod.splits)

lemma stream_of_body:
  assumes "stream_body s P tok up h = (out, h', exc)"
  shows "chunks (stream s P tok up h) = out"
    and "raised (stream s P tok up h) = fst (except_clauses exc)"
    and "logged (stream s P tok up h) = snd (except_clauses exc)"
  using assms by (simp_all add: stream_def split: prod.splits)

text \<open>
  C8, as the code has it. On every exit path the response is closed. An exception in the
  \<open>try\<close> block that is an instance of \<open>Exception\<close> and not the first-token timeout is
  logged and does not reach the consumer; the chunks yielded before it stay yielded. An
  exception that is not an instance of \<open>Exception\<close> is not logged and reaches the
  consumer. The first-token timeout is raised again. The only exceptions that leave the
  generator are the first-token timeout and those that are not instances of \<open>Exception\<close>.
\<close>

theorem stream_swallows_Exception_and_closes:
  "response_closed (final_handler (stream s P tok up h)) \<and>
   (stream_body s P tok up h = (out, h', Some e) \<and> e \<noteq> FirstTokenTimeoutError \<and>
    is_Exception e \<longrightarrow>
      raised (stream s P tok up h) = None \<and> logged (stream s P tok up h) = [e] \<and>
      chunks (stream s P tok up h) = out) \<and>
   (stream_body s P tok up h = (out, h', Some e) \<and> \<not> is_Exception e \<longrightarrow>
      raised (stream s P tok up h) = Some e \<and> logged (stream s P tok up h) = [] \<and>
      chunks (stream s P tok up h) = out) \<and>
   (first_read up = FirstRaises e \<and> e \<noteq> FirstTokenTimeoutError \<and> is_Exception e \<longrightarrow>
      raised (stream s P tok up h) = None \<and> logged (stream s P tok up h) = [e]) \<and>
   (first_read up = FirstRaises e \<and> \<not> is_Exception e \<longrightarrow>
      raised (stream s P tok up h) = Some e \<and> logged (stream s P tok up h) = []) \<and>
   (first_read up = FirstTimeout \<longrightarrow>
      raised (stream s P tok up h) = Some FirstTokenTimeoutError \<and>
      chunks (stream s P tok up h) = []) \<and>
   (raised (stream s P tok up h) = Some e \<longrightarrow> e = FirstTokenTimeoutError \<or> \<not> is_Exception e)"
proof -
  have closed: "response_closed (final_handler (stream s P tok up h))"
    by (rule stream_closes)
  have body: "raised (stream s P tok up h) = None \<and> logged (stream s P tok up h) = [e] \<and>
      chunks (stream s P tok up h) = out"
    if a: "stream_body s P tok up h = (out, h', Some e) \<and> e \<noteq> FirstTokenTimeoutError \<and>
      is_Exception e"
  proof -
    from a have b: "stream_body s P tok up h = (out, h', Some e)" by simp
    from a show ?thesis
      by (simp add: stream_of_body[OF b] except_clauses_def)
  qed
  have body_base: "raised (stream s P tok up h) = Some e \<and> logged (stream s P tok up h) = [] \<and>
      chunks (stream s P tok up h) = out"
    if a: "stream_body s P tok up h = (out, h', Some e) \<and> \<not> is_Exception e"
  proof -
    from a have b: "stream_body s P tok up h = (out, h', Some e)" by simp
    from a show ?thesis
      by (auto simp: stream_of_body[OF b] except_clauses_def)
  qed
  have first: "raised (stream s P tok up h) = None \<and> logged (stream s P tok up h) = [e]"
    if a: "first_read up = FirstRaises e \<and> e \<noteq> FirstTokenTimeoutError \<and> is_Exception e"
  proof -
    from a have b: "stream_body s P tok up h = ([], h, Some e)"
      by (simp add: stream_body_def read_first_chunk_with_timeout_def)
    from a show ?thesis
      by (simp add: stream_of_body[OF b] except_clauses_def)
  qed
  have first_base: "raised (stream s P tok up h) = Some e \<and> logged (stream s P tok up h) = []"
    if a: "first_read up = FirstRaises e \<and> \<not> is_Exception e"
  proof -
    from a have b: "stream_body s P tok up h = ([], h, Some e)"
      by (simp add: stream_body_def read_first_chunk_with_timeout_def)
    from a show ?thesis
      by (auto simp: stream_of_body[OF b] except_clauses_def)
  qed
  have timeout: "raised (stream s P tok up h) = Some FirstTokenTimeoutError \<and>
      chunks (stream s P tok up h) = []"
    if a: "first_read up = FirstTimeout"
  proof -
    from a have b: "stream_body s P tok up h = ([], h, Some FirstTokenTimeoutError)"
      by (simp add: stream_body_def read_first_chunk_with_timeout_def)
    show ?thesis
      by (simp add: stream_of_body[OF b] except_clauses_def)
  qed
  have only: "e = FirstTokenTimeoutError \<or> \<not> is_Exception e"
    if a: "raised (stream s P tok up h) = Some e"
  proof -
    obtain out1 h1 exc where b: "stream_body s P tok up h = (out1, h1, exc)"
      by (cases "stream_body s P tok up h")
    from a show ?thesis
      by (auto simp: stream_of_body[OF b] except_clauses_def split: option.splits if_splits)
  qed
  from closed body body_base first first_base timeout only show ?thesis
    by blast
qed

lemma body_hello_then_raises:
  "stream_body Settings_default echo_parsers length_tokenizer hello_then_raises handler0 =
     ([ContentChunk ''Hello'' True], handler0\<lparr> full_content := ''Hello'' \<rparr>,
      Some OtherException)"
  by (simp add: stream_body_def read_first_chunk_with_timeout_def hello_then_raises_def
        echo_parsers_def process_events_def handler0_def handler_init_def)

lemma body_first_read_raises:
  "stream_body Settings_default echo_parsers length_tokenizer (first_read_raises e) handler0 =
     ([], handler0, Some e)"
  by (simp add: stream_body_def read_first_chunk_with_timeout_def first_read_raises_def)

theorem stream_swallows_Exception_and_closes_witness:
  "raised (stream Settings_default echo_parsers length_tokenizer
             hello_then_raises handler0) = None \<and>
   logged (stream Settings_default echo_parsers length_tokenizer
             hello_then_raises handler0) = [OtherException] \<and>
   chunks (stream Settings_default echo_parsers length_tokenizer
             hello_then_raises handler0) = [ContentChunk ''Hello'' True] \<and>
   response_closed (final_handler (stream Settings_default echo_parsers length_tokenizer
             hello_then_raises handler0)) \<and>
   raised (stream Settings_default echo_parsers length_tokenizer
             (first_read_raises OtherException) handler0) = None \<and>
   logged (stream Settings_default echo_parsers length_tokenizer
             (first_read_raises OtherException) handler0) = [OtherException] \<and>
   raised (stream Settings_default echo_parsers length_tokenizer
             (first_read_raises CancelledError) handler0) = Some CancelledError \<and>
   logged (stream Settings_default echo_parsers length_tokenizer
             (first_read_raises CancelledError) handler0) = [] \<and>
   chunks (stream Settings_default echo_parsers length_tokenizer
             (first_read_raises CancelledError) handler0) = [] \<and>
   response_closed (final_handler (stream Settings_default echo_parsers length_tokenizer
             (first_read_raises CancelledError) handler0)) \<and>
   raised (stream Settings_default echo_parsers length_tokenizer
             first_read_times_out handler0) = Some FirstTokenTimeoutError \<and>
   response_closed (final_handler (stream Settings_default echo_parsers length_tokenizer
             first_read_times_out handler0))"
  using stream_swallows_Exception_and_closes[where s = Settings_default and P = echo_parsers
      and tok = length_tokenizer and up = hello_then_raises and h = handler0
      and e = OtherException and out = "[ContentChunk ''Hello'' True]"
      and h' = "handler0\<lparr> full_content := ''Hello'' \<rparr>"]
    stream_swallows_Exception_and_closes[where s = Settings_default and P = echo_parsers
      and tok = length_tokenizer and up = "first_read_raises OtherException" and h = handler0
      and e = OtherException and out = "[]" and h' = handler0]
    stream_swallows_Exception_and_closes[where s = Settings_default and P = echo_parsers
      and tok = length_tokenizer and up = "first_read_raises CancelledError" and h = handler0
      and e = CancelledError and out = "[]" and h' = handler0]
    stream_swallows_Exception_and_closes[where s = Settings_default and P = echo_parsers
      and tok = length_tokenizer and up = first_read_times_out and h = handler0]
    body_hello_then_raises body_first_read_raises[of OtherException]
    body_first_read_raises[of CancelledError]
  by (simp add: first_read_raises_def first_read_times_out_def)

text \<open>
  C8 as stated fails for an exception that is not an instance of \<open>Exception\<close>: a
  cancellation (\<open>asyncio.CancelledError\<close>) that arrives while the handler awaits the
  first upstream chunk is not the first-token timeout, and it reaches the consumer.
\<close>

theorem stream_propagates_CancelledError_counterexample:
  "raised (stream Settings_default echo_parsers length_tokenizer
             (first_read_raises CancelledError) handler0) = Some CancelledError \<and>
   CancelledError \<noteq> FirstTokenTimeoutError"
  by (simp add: stream_def stream_body_def read_first_chunk_with_timeout_def
        first_read_raises_def except_clauses_def)

subsection \<open>The float model\<close>

text \<open>
  \<open>floor_log2\<close> is the binary exponent, and \<open>round_to_double\<close> returns a value with a
  53-bit significand that is nearest to its argument.
\<close>

lemma pow2_powi: "pow2 e = 2 powi e"
  by (simp add: pow2_def power_int_def field_simps)

lemma pow2_pos: "0 < pow2 e"
  by (simp add: pow2_powi)

lemma pow2_add: "pow2 (i + j) = pow2 i * pow2 j"
  by (simp add: pow2_powi power_int_add)

lemma pow2_nat: "pow2 (int n) = 2 ^ n"
  by (simp add: pow2_def)

lemma bit_length_bounds:
  "0 < a \<Longrightarrow> 1 \<le> bit_length a \<and> 2 ^ nat (bit_length a - 1) \<le> a \<and> a < 2 ^ nat (bit_length a)"
proof (induction a rule: bit_length.induct)
  case (1 a)
  have unfold: "bit_length a = bit_length (a div 2) + 1"
    using "1.prems" by (subst bit_length.simps) simp
  show ?case
  proof (cases "0 < a div 2")
    case False
    with "1.prems" have "a = 1" by linarith
    moreover have "bit_length 0 = 0"
      by (subst bit_length.simps) simp
    ultimately show ?thesis
      using unfold by simp
  next
    case True
    define k where "k = nat (bit_length (a div 2) - 1)"
    from "1.IH"[OF "1.prems" True] have ih: "1 \<le> bit_length (a div 2)"
      "2 ^ nat (bit_length (a div 2) - 1) \<le> a div 2" "a div 2 < 2 ^ nat (bit_length (a div 2))"
      by simp_all
    from ih(1) have bk: "bit_length (a div 2) = int k + 1"
      by (simp add: k_def)
    have lo: "2 ^ k \<le> a div 2"
      using ih(2) by (simp add: k_def)
    have hi: "a div 2 < 2 ^ Suc k"
      using ih(3) by (simp add: bk nat_add_distrib)
    have bl: "bit_length a = int k + 2"
      using unfold bk by simp
    have "2 * 2 ^ k \<le> a" using lo by linarith
    moreover have "a < 2 * 2 ^ Suc k" using hi by linarith
    ultimately show ?thesis
      unfolding bl by (simp add: nat_add_distrib)
  qed
qed

lemma floor_log2_correct:
  assumes "0 < x"
  shows "pow2 (floor_log2 x) \<le> x \<and> x < pow2 (floor_log2 x + 1)"
proof -
  obtain a b where q: "quotient_of x = (a, b)" by (cases "quotient_of x")
  then have b: "0 < b" and x: "x = of_int a / of_int b"
    using quotient_of_denom_pos quotient_of_div by auto
  from assms x b have a: "0 < a"
    by (simp add: zero_less_divide_iff)
  define la lb where "la = bit_length a" and "lb = bit_length b"
  from bit_length_bounds[OF a] have A: "1 \<le> la" "2 ^ nat (la - 1) \<le> a" "a < 2 ^ nat la"
    by (simp_all add: la_def)
  from bit_length_bounds[OF b] have B: "1 \<le> lb" "2 ^ nat (lb - 1) \<le> b" "b < 2 ^ nat lb"
    by (simp_all add: lb_def)
  have ra: "pow2 (la - 1) \<le> of_int a" "(of_int a :: rat) < pow2 la"
  proof -
    have "(of_int (2 ^ nat (la - 1)) :: rat) \<le> of_int a"
      using A(2) by (simp only: of_int_le_iff)
    then show "pow2 (la - 1) \<le> of_int a"
      using A(1) by (simp add: pow2_def)
    have "(of_int a :: rat) < of_int (2 ^ nat la)"
      using A(3) by (simp only: of_int_less_iff)
    then show "(of_int a :: rat) < pow2 la"
      using A(1) by (simp add: pow2_def)
  qed
  have rb: "pow2 (lb - 1) \<le> of_int b" "(of_int b :: rat) < pow2 lb"
  proof -
    have "(of_int (2 ^ nat (lb - 1)) :: rat) \<le> of_int b"
      using B(2) by (simp only: of_int_le_iff)
    then show "pow2 (lb - 1) \<le> of_int b"
      using B(1) by (simp add: pow2_def)
    have "(of_int b :: rat) < of_int (2 ^ nat lb)"
      using B(3) by (simp only: of_int_less_iff)
    then show "(of_int b :: rat) < pow2 lb"
      using B(1) by (simp add: pow2_def)
  qed
  have bpos: "(0::rat) < of_int b" using b by simp
  have upper: "x < pow2 (la - lb + 1)"
  proof -
    have "of_int a < pow2 (la - lb + 1) * pow2 (lb - 1)"
      using ra(2) by (simp add: pow2_add[symmetric])
    also have "\<dots> \<le> pow2 (la - lb + 1) * of_int b"
      using rb(1) pow2_pos[of "la - lb + 1"] by (simp add: mult_left_mono)
    finally show ?thesis
      using bpos by (simp add: x pos_divide_less_eq)
  qed
  have lower: "pow2 (la - lb - 1) \<le> x"
  proof -
    have "pow2 (la - lb - 1) * of_int b \<le> pow2 (la - lb - 1) * pow2 lb"
      using rb(2) pow2_pos[of "la - lb - 1"] by (simp add: mult_left_mono)
    also have "\<dots> = pow2 (la - 1)"
      by (simp add: pow2_add[symmetric])
    also have "\<dots> \<le> of_int a" by (rule ra(1))
    finally show ?thesis
      using bpos by (simp add: x pos_le_divide_eq)
  qed
  have fl: "floor_log2 x = (if pow2 (la - lb) \<le> x then la - lb else la - lb - 1)"
    by (simp add: floor_log2_def q la_def lb_def Let_def)
  show ?thesis
  proof (cases "pow2 (la - lb) \<le> x")
    case True
    with upper show ?thesis by (simp add: fl)
  next
    case False
    with lower show ?thesis by (simp add: fl)
  qed
qed

lemma round_half_even_near: "\<bar>of_int (round_half_even r) - r\<bar> \<le> 1 / 2"
proof -
  have "of_int \<lfloor>r\<rfloor> \<le> r" "r < of_int \<lfloor>r\<rfloor> + 1"
    by linarith+
  then show ?thesis
    by (auto simp: round_half_even_def Let_def abs_le_iff)
qed

lemma round_half_even_mono_int:
  assumes "of_int lo \<le> r" and "r \<le> of_int hi"
  shows "lo \<le> round_half_even r \<and> round_half_even r \<le> hi"
proof -
  have f: "lo \<le> \<lfloor>r\<rfloor>" "\<lfloor>r\<rfloor> \<le> hi"
    using assms by (simp_all add: le_floor_iff floor_le_iff)
  have "r = of_int hi \<or> \<lfloor>r\<rfloor> + 1 \<le> hi"
  proof (cases "\<lfloor>r\<rfloor> = hi")
    case True
    have "of_int \<lfloor>r\<rfloor> \<le> r" by linarith
    with True assms(2) show ?thesis by simp
  next
    case False
    with f(2) show ?thesis by simp
  qed
  then show ?thesis
    using f by (auto simp: round_half_even_def Let_def)
qed

text \<open>
  The rounded value lies on the grid of spacing \<open>2 ^ q\<close> that doubles of the magnitude of
  \<open>x\<close> have, at most half a step from \<open>x\<close>; in the normal range its significand has
  53 bits.
\<close>

lemma round_to_double_nearest:
  assumes "x \<noteq> 0"
  defines "q \<equiv> max (floor_log2 \<bar>x\<bar>) (- 1022) - 52"
  defines "n \<equiv> round_half_even (\<bar>x\<bar> / pow2 q)"
  shows "round_to_double x = sgn x * of_int n * pow2 q"
    and "\<bar>round_to_double x - x\<bar> \<le> pow2 q / 2"
    and "- 1022 \<le> floor_log2 \<bar>x\<bar> \<Longrightarrow> 2 ^ 52 \<le> n \<and> n \<le> 2 ^ 53"
proof -
  show r: "round_to_double x = sgn x * of_int n * pow2 q"
    using assms(1) by (simp add: round_to_double_def q_def n_def Let_def)
  have qpos: "0 < pow2 q" by (rule pow2_pos)
  have "\<bar>of_int n - \<bar>x\<bar> / pow2 q\<bar> \<le> 1 / 2"
    unfolding n_def by (rule round_half_even_near)
  then have "\<bar>of_int n - \<bar>x\<bar> / pow2 q\<bar> * pow2 q \<le> 1 / 2 * pow2 q"
    using qpos by (simp add: mult_right_mono)
  moreover have "\<bar>of_int n - \<bar>x\<bar> / pow2 q\<bar> * pow2 q = \<bar>of_int n * pow2 q - \<bar>x\<bar>\<bar>"
  proof -
    have "(of_int n - \<bar>x\<bar> / pow2 q) * pow2 q = of_int n * pow2 q - \<bar>x\<bar>"
      using qpos by (simp add: left_diff_distrib)
    then have "\<bar>of_int n * pow2 q - \<bar>x\<bar>\<bar> = \<bar>of_int n - \<bar>x\<bar> / pow2 q\<bar> * \<bar>pow2 q\<bar>"
      by (simp only: abs_mult[symmetric])
    then show ?thesis
      using qpos by simp
  qed
  ultimately have d: "\<bar>of_int n * pow2 q - \<bar>x\<bar>\<bar> \<le> pow2 q / 2"
    by simp
  have "x = sgn x * \<bar>x\<bar>" by (simp add: sgn_mult_abs)
  then have "round_to_double x - x = sgn x * (of_int n * pow2 q - \<bar>x\<bar>)"
    unfolding r by (simp add: algebra_simps)
  then have "\<bar>round_to_double x - x\<bar> = \<bar>of_int n * pow2 q - \<bar>x\<bar>\<bar>"
    using assms(1) by (simp add: abs_mult abs_sgn_eq)
  with d show "\<bar>round_to_double x - x\<bar> \<le> pow2 q / 2" by simp
  show "2 ^ 52 \<le> n \<and> n \<le> 2 ^ 53" if normal: "- 1022 \<le> floor_log2 \<bar>x\<bar>"
  proof -
    have e: "floor_log2 \<bar>x\<bar> = q + 52"
      using normal by (simp add: q_def)
    from assms(1) have "0 < \<bar>x\<bar>" by simp
    from floor_log2_correct[OF this] have "pow2 (q + 52) \<le> \<bar>x\<bar>" "\<bar>x\<bar> < pow2 (q + 52 + 1)"
      by (simp_all add: e)
    then have "pow2 52 * pow2 q \<le> \<bar>x\<bar>" "\<bar>x\<bar> \<le> pow2 53 * pow2 q"
      by (simp_all add: pow2_add[symmetric] add.commute)
    then have "pow2 52 \<le> \<bar>x\<bar> / pow2 q" "\<bar>x\<bar> / pow2 q \<le> pow2 53"
      using qpos by (simp_all add: pos_le_divide_eq pos_divide_le_eq)
    then have "of_int (2 ^ 52) \<le> \<bar>x\<bar> / pow2 q" "\<bar>x\<bar> / pow2 q \<le> of_int (2 ^ 53)"
      by (simp_all add: pow2_def)
    then show ?thesis
      unfolding n_def by (rule round_half_even_mono_int)
  qed
qed

subsection \<open>Token accounting\<close>

text \<open>
  C3, as the code has it. When a context usage percentage \<open>p > 0\<close> is known, the model
  cache resolves a numeric \<open>max_input_tokens\<close>, and the float product
  \<open>y = (p / 100) * max_input_tokens\<close> is finite and at least 1, then \<open>total_tokens\<close> is
  \<open>y\<close> truncated to an integer (\<open>int(y)\<close>, not \<open>round(y)\<close>), \<open>completion_tokens\<close> is the
  count of the accumulated text, and \<open>prompt_tokens = max(0, total_tokens -
  completion_tokens)\<close>.
\<close>

theorem calculate_tokens_from_api:
  assumes "context_usage_percentage h = Some p" and "0 < p"
    and "get_max_input_tokens s (model_cache h) (model h) = Inr v"
    and "float_operand v = Inr m"
    and "float_mul (float_truediv p 100) m = Some y" and "1 \<le> y"
  shows "calculate_tokens s tok h =
           Inr (max 0 (\<lfloor>y\<rfloor> - count_tokens tok (full_content h)),
                count_tokens tok (full_content h), \<lfloor>y\<rfloor>)"
proof -
  from \<open>1 \<le> y\<close> have pos: "0 \<le> y" "0 < \<lfloor>y\<rfloor>"
    by simp_all
  then have "total_tokens_from_api p v = Inr \<lfloor>y\<rfloor>"
    using assms(4,5) by (simp add: total_tokens_from_api_def py_int_of_float_def)
  with assms(1-3) pos show ?thesis
    by (simp add: calculate_tokens_def Let_def)
qed

lemma get_max_handler_at:
  "limit \<noteq> 0 \<Longrightarrow>
   get_max_input_tokens s (model_cache (handler_at p limit)) (model (handler_at p limit))
     = Inr (JInt limit)"
  by (simp add: handler_at_def handler_init_def get_max_input_tokens_def)

lemma operand_200001: "float_operand (JInt 200001) = Inr 200001"
  by code_simp

lemma product_75: "float_mul (float_truediv 75 100) 200001 = Some (600003 / 4)"
  by code_simp

lemma floor_600003: "\<lfloor>600003 / 4 :: rat\<rfloor> = 150000"
  by code_simp

lemma handler_at_fields:
  "context_usage_percentage (handler_at p limit) = Some p"
  "count_tokens length_tokenizer (full_content (handler_at p limit)) = 5"
  by (simp_all add: handler_at_def handler_init_def length_tokenizer_def)

theorem calculate_tokens_from_api_witness:
  "calculate_tokens Settings_default length_tokenizer (handler_at 75 200001)
     = Inr (149995, 5, 150000)"
proof -
  have "calculate_tokens Settings_default length_tokenizer (handler_at 75 200001) =
      Inr (max 0 (\<lfloor>600003 / 4 :: rat\<rfloor> -
                  count_tokens length_tokenizer (full_content (handler_at 75 200001))),
           count_tokens length_tokenizer (full_content (handler_at 75 200001)),
           \<lfloor>600003 / 4 :: rat\<rfloor>)"
  proof (rule calculate_tokens_from_api)
    show "context_usage_percentage (handler_at 75 200001) = Some 75"
      by (rule handler_at_fields)
    show "(0::rat) < 75" by simp
    show "get_max_input_tokens Settings_default (model_cache (handler_at 75 200001))
            (model (handler_at 75 200001)) = Inr (JInt 200001)"
      by (rule get_max_handler_at) simp
    show "float_operand (JInt 200001) = Inr 200001"
      by (rule operand_200001)
    show "float_mul (float_truediv 75 100) 200001 = Some (600003 / 4)"
      by (rule product_75)
    show "(1::rat) \<le> 600003 / 4" by simp
  qed
  then show ?thesis
    by (simp only: floor_600003 handler_at_fields) simp
qed

text \<open>
  C3 as stated fails: at 75 percent of a limit of 200001 tokens the product is 150000.75;
  the code reports \<open>total_tokens = 150000\<close>, and \<open>round\<close> gives 150001.
\<close>

theorem calculate_tokens_truncates_counterexample:
  "calculate_tokens Settings_default length_tokenizer (handler_at 75 200001)
     = Inr (149995, 5, 150000) \<and>
   spec_total_tokens 75 200001 = 150001"
proof -
  have "total_tokens_from_api 75 (JInt 200001) = Inr 150000"
    by (simp add: total_tokens_from_api_def operand_200001 product_75 py_int_of_float_def
          floor_600003 del: float_operand.simps)
  then have "calculate_tokens Settings_default length_tokenizer (handler_at 75 200001)
     = Inr (149995, 5, 150000)"
    by (simp add: calculate_tokens_def get_max_handler_at Let_def handler_at_fields)
  moreover have "spec_total_tokens 75 200001 = 150001"
    by code_simp
  ultimately show ?thesis by simp
qed

text \<open>
  The float product need not be the exact one: at 29 percent of the default limit of
  200000 tokens the exact product is 58000, the float product is just below it, and the
  code reports 57999.
\<close>

lemma calculate_tokens_float_example:
  "total_tokens_from_api 29 (JInt 200000) = Inr 57999 \<and> spec_total_tokens 29 200000 = 58000"
  by code_simp

end
